theory Spec2Isabelle
  imports Main "HOL-Library.Word" "HOL-Library.Char_ord" "HOL-Library.List_Lexorder"
begin

section \<open>The copy engine of photoutils (package pcopylib)\<close>

text \<open>
  The engine is a Go package built on the \<open>os\<close>, \<open>io\<close>, \<open>path/filepath\<close>, \<open>strconv\<close>,
  \<open>sort\<close> and \<open>crypto/md5\<close> packages. Its own functions are embedded one by one, under their
  own names. The library calls they make are modelled on an explicit file system: a flat
  map from path strings to nodes, together with the ways in which a system call can fail
  for reasons the map does not show (permissions, a full disk, a mount boundary).
\<close>

subsection \<open>Machine integers\<close>

text \<open>
  Go's \<open>int64\<close> (and \<open>int\<close> on a 64-bit platform) is a two's complement integer. It is
  modelled as an \<open>int\<close> with the wrap-around written out; \<open>quo\<close> is Go's \<open>/\<close>, which
  truncates towards zero.
\<close>

definition wrap64 :: "int \<Rightarrow> int" where
  "wrap64 x = (x + 2 ^ 63) mod 2 ^ 64 - 2 ^ 63"

definition quo :: "int \<Rightarrow> int \<Rightarrow> int" where
  "quo a b = (if (a < 0) = (b < 0) then \<bar>a\<bar> div \<bar>b\<bar> else - (\<bar>a\<bar> div \<bar>b\<bar>))"

subsection \<open>Strings: \<open>strconv.Itoa\<close>, \<open>filepath.Ext\<close>, \<open>renameFile\<close>\<close>

type_synonym path = string

definition digit :: "nat \<Rightarrow> char" where
  "digit d = ''0123456789'' ! d"

fun dec :: "nat \<Rightarrow> string" where
  "dec n = (if n < 10 then [digit n] else dec (n div 10) @ [digit (n mod 10)])"

declare dec.simps [simp del]

definition Itoa :: "int \<Rightarrow> string" where
  "Itoa i = (if i < 0 then CHR ''-'' # dec (nat (- i)) else dec (nat i))"

text \<open>
  \<open>filepath.Ext\<close> scans the path from its last byte towards the front, stops at a path
  separator and returns the suffix that starts at the first dot it meets (the last dot of
  the last path element), or the empty string. \<open>Ext_scan\<close> is that loop on the reversed
  path, with the bytes already passed in \<open>seen\<close>.
\<close>

fun Ext_scan :: "string \<Rightarrow> string \<Rightarrow> string" where
  "Ext_scan [] seen = []"
| "Ext_scan (c # cs) seen =
     (if c = CHR ''/'' then []
      else if c = CHR ''.'' then c # seen
      else Ext_scan cs (c # seen))"

definition Ext :: "path \<Rightarrow> string" where
  "Ext p = Ext_scan (rev p) []"

definition renameFile :: "path \<Rightarrow> int \<Rightarrow> path" where
  "renameFile target idx =
     (let extName = Ext target;
          newTarget = take (length target - length extName) target
                        @ ''('' @ Itoa idx @ '')'' @ extName
      in newTarget)"

subsection \<open>The file system and its failures\<close>

type_synonym byte = "8 word"

text \<open>
  A node is a regular file (content, permission bits, modification time) or a directory
  (the size \<open>stat\<close> reports for it, permission bits, modification time). The map is flat:
  it records which path strings resolve to which node and does not track the entries of a
  directory. A call on one path changes the map at that path only, so what is stated of
  the map after a removal or a rename is stated of files that have one path (no second
  spelling, hard link or symlink) and of regular files, not of what lies beneath a
  directory that is moved.
\<close>

datatype node = File "byte list" nat int | Dir int nat int

record fileinfo =
  fi_Size :: int
  fi_IsDir :: bool
  fi_Mode :: nat
  fi_ModTime :: int

fun stat_of :: "node \<Rightarrow> fileinfo" where
  "stat_of (File c m t) = \<lparr>fi_Size = int (length c), fi_IsDir = False, fi_Mode = m, fi_ModTime = t\<rparr>"
| "stat_of (Dir s m t) = \<lparr>fi_Size = s, fi_IsDir = True, fi_Mode = m, fi_ModTime = t\<rparr>"

text \<open>
  What the map does not decide is fixed by the environment: the digest function of
  \<open>crypto/md5\<close>, and for each path whether a call on it fails.
  \<^item> \<open>unreachable p\<close>: the path cannot be resolved (no search permission on a parent, a
    symlink loop, a name too long); every call on \<open>p\<close> fails, \<open>stat\<close> included;
  \<^item> \<open>unreadable p\<close>: \<open>os.Open\<close> is refused;
  \<^item> \<open>uncreatable p\<close>: \<open>os.Create\<close> is refused (missing or read-only parent directory);
  \<^item> \<open>write_limit p = Some k\<close>: writing to \<open>p\<close> fails after \<open>k\<close> bytes (disk full, I/O error);
  \<^item> \<open>close_fails p\<close>: closing the written file reports an error;
  \<^item> \<open>rename_fails s t\<close>: \<open>os.Rename\<close> is refused (for example across a mount boundary);
  \<^item> \<open>remove_fails p\<close>: \<open>os.Remove\<close> is refused (read-only parent, non-empty directory).
  Reading from a file that was opened does not fail, except that reading a directory
  delivers no byte.
\<close>

record env =
  md5sum :: "byte list \<Rightarrow> byte list"
  unreachable :: "path \<Rightarrow> bool"
  unreadable :: "path \<Rightarrow> bool"
  uncreatable :: "path \<Rightarrow> bool"
  write_limit :: "path \<Rightarrow> nat option"
  close_fails :: "path \<Rightarrow> bool"
  rename_fails :: "path \<Rightarrow> path \<Rightarrow> bool"
  remove_fails :: "path \<Rightarrow> bool"
  create_mode :: nat
  clock :: int

text \<open>
  The state: the file map, the calls issued so far that ask the system to change it, and
  the lines printed so far. A printed line is kept as the record of its \<open>Printf\<close> call;
  \<open>render\<close> gives its text.
\<close>

datatype syscall =
    SysCreate path
  | SysWrite path nat
  | SysChmod path
  | SysChtimes path
  | SysRename path path
  | SysRemove path

datatype line = Moved path path | Copied path path | Skipped path path

fun render :: "line \<Rightarrow> string" where
  "render (Moved s t) = s @ '' -----> '' @ t @ [CHR 0x0A]"
| "render (Copied s t) = s @ '' +++++> '' @ t @ [CHR 0x0A]"
| "render (Skipped s t) = s @ '' ====== '' @ t @ '', skipped'' @ [CHR 0x0A]"

record world =
  files :: "path \<rightharpoonup> node"
  calls :: "syscall list"
  stdout :: "line list"

datatype error = PathError string path | Identical string | InvalidTarget string

datatype panic = NilDereference

definition issue :: "syscall \<Rightarrow> world \<Rightarrow> world" where
  "issue c w = w\<lparr>calls := calls w @ [c]\<rparr>"

definition Printf :: "line \<Rightarrow> world \<Rightarrow> world" where
  "Printf l w = w\<lparr>stdout := stdout w @ [l]\<rparr>"

definition os_Stat :: "env \<Rightarrow> world \<Rightarrow> path \<Rightarrow> fileinfo option" where
  "os_Stat E w p = (if unreachable E p then None else map_option stat_of (files w p))"

definition os_Open :: "env \<Rightarrow> world \<Rightarrow> path \<Rightarrow> bool" where
  "os_Open E w p \<longleftrightarrow> \<not> unreachable E p \<and> files w p \<noteq> None \<and> \<not> unreadable E p"

text \<open>The bytes that reading an open descriptor of \<open>p\<close> delivers, from its start to end of file.\<close>

definition read_bytes :: "world \<Rightarrow> path \<Rightarrow> byte list" where
  "read_bytes w p = (case files w p of Some (File c m t) \<Rightarrow> c | _ \<Rightarrow> [])"

text \<open>
  \<open>os.Create\<close> opens with \<open>O_CREATE|O_TRUNC\<close>: an existing regular file is emptied and
  keeps its mode, a missing one is created, a directory is refused.
\<close>

definition os_Create :: "env \<Rightarrow> world \<Rightarrow> path \<Rightarrow> bool \<times> world" where
  "os_Create E w p =
     (let w1 = issue (SysCreate p) w in
      if unreachable E p \<or> uncreatable E p then (False, w1)
      else case files w p of
             Some (Dir s m t) \<Rightarrow> (False, w1)
           | Some (File c m t) \<Rightarrow> (True, w1\<lparr>files := (files w)(p \<mapsto> File [] m (clock E))\<rparr>)
           | None \<Rightarrow> (True, w1\<lparr>files := (files w)(p \<mapsto> File [] (create_mode E) (clock E))\<rparr>))"

text \<open>
  Writing \<open>bs\<close> through the open descriptor of the regular file at \<open>p\<close>; nothing is
  written for an empty \<open>bs\<close>.
\<close>

definition append_bytes :: "env \<Rightarrow> world \<Rightarrow> path \<Rightarrow> byte list \<Rightarrow> world" where
  "append_bytes E w p bs =
     (if bs = [] then w
      else let w1 = issue (SysWrite p (length bs)) w in
           case files w p of
             Some (File c m t) \<Rightarrow> w1\<lparr>files := (files w)(p \<mapsto> File (c @ bs) m (clock E))\<rparr>
           | _ \<Rightarrow> w1)"

text \<open>
  \<open>io.Copy(targetFile, sourceFile)\<close>: reads the source to its end and writes what it read.
  Reading a directory is a \<open>read\<close> error on the source; a failed write is a \<open>write\<close> error
  on the target and leaves the bytes written before it.
\<close>

definition is_dir :: "world \<Rightarrow> path \<Rightarrow> bool" where
  "is_dir w p = (case files w p of Some (Dir s m t) \<Rightarrow> True | _ \<Rightarrow> False)"

definition io_Copy :: "env \<Rightarrow> world \<Rightarrow> path \<Rightarrow> path \<Rightarrow> error option \<times> world" where
  "io_Copy E w dst src =
     (if is_dir w src then (Some (PathError ''read'' src), w)
      else let bs = read_bytes w src in
           case write_limit E dst of
             None \<Rightarrow> (None, append_bytes E w dst bs)
           | Some k \<Rightarrow> if k < length bs
                       then (Some (PathError ''write'' dst), append_bytes E w dst (take k bs))
                       else (None, append_bytes E w dst bs))"

definition set_mode :: "nat \<Rightarrow> node \<Rightarrow> node" where
  "set_mode m' n = (case n of File c m t \<Rightarrow> File c m' t | Dir s m t \<Rightarrow> Dir s m' t)"

definition set_mtime :: "int \<Rightarrow> node \<Rightarrow> node" where
  "set_mtime t' n = (case n of File c m t \<Rightarrow> File c m t' | Dir s m t \<Rightarrow> Dir s m t')"

definition os_Chmod :: "env \<Rightarrow> world \<Rightarrow> path \<Rightarrow> nat \<Rightarrow> world" where
  "os_Chmod E w p m =
     (let w1 = issue (SysChmod p) w in
      if unreachable E p then w1
      else case files w p of None \<Rightarrow> w1
           | Some n \<Rightarrow> w1\<lparr>files := (files w)(p \<mapsto> set_mode m n)\<rparr>)"

definition os_Chtimes :: "env \<Rightarrow> world \<Rightarrow> path \<Rightarrow> int \<Rightarrow> world" where
  "os_Chtimes E w p t =
     (let w1 = issue (SysChtimes p) w in
      if unreachable E p then w1
      else case files w p of None \<Rightarrow> w1
           | Some n \<Rightarrow> w1\<lparr>files := (files w)(p \<mapsto> set_mtime t n)\<rparr>)"

text \<open>
  \<open>os.Rename\<close> replaces an existing target of the same kind and is refused when source and
  target are of different kinds.
\<close>

definition os_Rename :: "env \<Rightarrow> world \<Rightarrow> path \<Rightarrow> path \<Rightarrow> bool \<times> world" where
  "os_Rename E w s t =
     (let w1 = issue (SysRename s t) w in
      if unreachable E s \<or> unreachable E t \<or> rename_fails E s t then (False, w1)
      else case files w s of
             None \<Rightarrow> (False, w1)
           | Some n \<Rightarrow>
               if files w t \<noteq> None \<and> is_dir w t \<noteq> is_dir w s then (False, w1)
               else (True, w1\<lparr>files := ((files w)(s := None))(t \<mapsto> n)\<rparr>))"

definition os_Remove :: "env \<Rightarrow> world \<Rightarrow> path \<Rightarrow> bool \<times> world" where
  "os_Remove E w p =
     (let w1 = issue (SysRemove p) w in
      if unreachable E p \<or> remove_fails E p \<or> files w p = None then (False, w1)
      else (True, w1\<lparr>files := (files w)(p := None)\<rparr>))"

subsection \<open>Path prober and single-entry transfer\<close>

datatype FileExistStatus =
    FileExistStatus_File
  | FileExistStatus_Directory
  | FileExistStatus_NotExist

definition IsFileExist :: "env \<Rightarrow> world \<Rightarrow> path \<Rightarrow> FileExistStatus" where
  "IsFileExist E w p =
     (case os_Stat E w p of
        None \<Rightarrow> FileExistStatus_NotExist
      | Some fileinfo \<Rightarrow>
          if fi_IsDir fileinfo = True then FileExistStatus_Directory
          else FileExistStatus_File)"

text \<open>
  \<open>doCopy\<close> returns the first error it meets (\<open>Some\<close>) or \<open>nil\<close> (\<open>None\<close>); the results of
  \<open>Chmod\<close> and \<open>Chtimes\<close> are dropped by the source.
\<close>

definition doCopy :: "env \<Rightarrow> world \<Rightarrow> path \<Rightarrow> path \<Rightarrow> error option \<times> world" where
  "doCopy E w source target =
     (case os_Stat E w source of
        None \<Rightarrow> (Some (PathError ''stat'' source), w)
      | Some fileinfo \<Rightarrow>
          if \<not> os_Open E w source then (Some (PathError ''open'' source), w)
          else (case os_Create E w target of
                  (False, w1) \<Rightarrow> (Some (PathError ''open'' target), w1)
                | (True, w1) \<Rightarrow>
                    (case io_Copy E w1 target source of
                       (Some err, w2) \<Rightarrow> (Some err, w2)
                     | (None, w2) \<Rightarrow>
                         if close_fails E target then (Some (PathError ''close'' target), w2)
                         else let w3 = os_Chmod E w2 target (fi_Mode fileinfo);
                                  w4 = os_Chtimes E w3 target (fi_ModTime fileinfo)
                              in (None, w4))))"

text \<open>
  \<open>doCopyOrMove\<close> drops the result of \<open>os.Rename\<close> and of \<open>doCopy\<close>, prints the transfer
  record and returns \<open>nil\<close>.
\<close>

definition doCopyOrMove :: "env \<Rightarrow> world \<Rightarrow> path \<Rightarrow> path \<Rightarrow> bool \<Rightarrow> error option \<times> world" where
  "doCopyOrMove E w source target moveMode =
     (if moveMode then
        let w1 = snd (os_Rename E w source target)
        in (None, Printf (Moved source target) w1)
      else
        let w1 = snd (doCopy E w source target)
        in (None, Printf (Copied source target) w1))"

subsection \<open>Content comparator\<close>

definition hexdigit :: "nat \<Rightarrow> char" where
  "hexdigit d = ''0123456789abcdef'' ! d"

text \<open>\<open>fmt.Sprintf("%x", b)\<close> on a byte slice: two lower-case hexadecimal digits per byte.\<close>

definition hex :: "byte list \<Rightarrow> string" where
  "hex bs = concat (map (\<lambda>b. [hexdigit (unat b div 16), hexdigit (unat b mod 16)]) bs)"

definition getFullHash :: "env \<Rightarrow> world \<Rightarrow> path \<Rightarrow> string" where
  "getFullHash E w filename =
     (if \<not> os_Open E w filename then []
      else hex (md5sum E (read_bytes w filename)))"

definition blockSize :: int where
  "blockSize = 50 * 1024"

definition blockOffsets :: "int \<Rightarrow> int list" where
  "blockOffsets filesize =
     [0,
      quo (wrap64 (filesize - blockSize)) 3,
      quo (wrap64 (2 * wrap64 (filesize - blockSize))) 3,
      wrap64 (filesize - blockSize)]"

text \<open>
  The loop over the offsets, on the bytes \<open>bs\<close> of the open file, with the file position
  \<open>pos\<close> and the bytes written to the digest so far. \<open>Seek(offset, 0)\<close> sets the position;
  a negative offset is an error, which the source drops, and leaves the position where it
  was. \<open>io.CopyN\<close> reads \<open>blockSize\<close> bytes from the position, fewer at end of file.
\<close>

fun read_blocks :: "byte list \<Rightarrow> int list \<Rightarrow> nat \<Rightarrow> byte list \<Rightarrow> byte list" where
  "read_blocks bs [] pos acc = acc"
| "read_blocks bs (offset # rest) pos acc =
     (let pos1 = (if offset < 0 then pos else nat offset);
          block = take (nat blockSize) (drop pos1 bs)
      in read_blocks bs rest (pos1 + length block) (acc @ block))"

definition getParticalHash :: "env \<Rightarrow> world \<Rightarrow> path \<Rightarrow> int \<Rightarrow> string" where
  "getParticalHash E w filename filesize =
     (if \<not> os_Open E w filename then []
      else hex (md5sum E (read_blocks (read_bytes w filename) (blockOffsets filesize) 0 [])))"

text \<open>
  \<open>hasSameContent\<close> drops the error of both \<open>os.Stat\<close> calls and then calls \<open>Size()\<close> on
  the results: where a \<open>stat\<close> has failed the \<open>FileInfo\<close> is \<open>nil\<close> and the call panics.
\<close>

definition hasSameContent :: "env \<Rightarrow> world \<Rightarrow> path \<Rightarrow> path \<Rightarrow> bool \<Rightarrow> panic + bool" where
  "hasSameContent E w source target fullHashMode =
     (case os_Stat E w source of
        None \<Rightarrow> Inl NilDereference
      | Some fiSource \<Rightarrow>
          (case os_Stat E w target of
             None \<Rightarrow> Inl NilDereference
           | Some fiTarget \<Rightarrow>
               let srcSize = fi_Size fiSource;
                   dstSize = fi_Size fiTarget
               in if srcSize \<noteq> dstSize then Inr False
                  else let (srcMD5, dstMD5) =
                             (if \<not> fullHashMode \<and> srcSize > 500 * 1024
                              then (getParticalHash E w source srcSize,
                                    getParticalHash E w target dstSize)
                              else (getFullHash E w source, getFullHash E w target))
                       in Inr (srcMD5 = dstMD5 \<and> length srcMD5 \<noteq> 0 \<and> length dstMD5 \<noteq> 0)))"

subsection \<open>Collision resolver\<close>

text \<open>
  The loop of \<open>CopyFileInternal\<close>, on its two variables. It has no bound in the source, so
  it is a partial function: \<open>None\<close> is a loop that does not end, \<open>Some (Inl p)\<close> a panic
  inside \<open>hasSameContent\<close>, \<open>Some (Inr c)\<close> the value of \<open>newTarget\<close> on leaving the loop.
\<close>

partial_function (option) probing ::
  "env \<Rightarrow> world \<Rightarrow> path \<Rightarrow> path \<Rightarrow> bool \<Rightarrow> path \<Rightarrow> int \<Rightarrow> (panic + path) option" where
  "probing E w source target fullHashMode newTarget renameIdx =
     (if IsFileExist E w newTarget = FileExistStatus_NotExist then Some (Inr newTarget)
      else case hasSameContent E w source newTarget fullHashMode of
             Inl p \<Rightarrow> Some (Inl p)
           | Inr same \<Rightarrow>
               if same then Some (Inr newTarget)
               else probing E w source target fullHashMode
                      (renameFile target renameIdx) (wrap64 (renameIdx + 1)))"

declare probing.simps [code]

definition CopyFileInternal ::
  "env \<Rightarrow> world \<Rightarrow> path \<Rightarrow> path \<Rightarrow> bool \<Rightarrow> bool \<Rightarrow> ((panic + error option) \<times> world) option" where
  "CopyFileInternal E w source target moveMode fullHashMode =
     (if IsFileExist E w target = FileExistStatus_NotExist then
        Some (Inr None, snd (doCopyOrMove E w source target moveMode))
      else
        case probing E w source target fullHashMode target 1 of
          None \<Rightarrow> None
        | Some (Inl p) \<Rightarrow> Some (Inl p, w)
        | Some (Inr newTarget) \<Rightarrow>
            if IsFileExist E w newTarget = FileExistStatus_NotExist then
              Some (Inr None, snd (doCopyOrMove E w source newTarget moveMode))
            else
              let w1 = (if moveMode then snd (os_Remove E w source) else w)
              in Some (Inr None, Printf (Skipped source newTarget) w1))"

subsection \<open>Tree copier\<close>

text \<open>
  \<open>sort.Sort(sort.Reverse(sort.StringSlice(dirList)))\<close> orders the strings by \<open>>\<close>, Go's
  bytewise comparison; equal strings cannot be told apart, so the result is the one
  descending arrangement of the list. The removal pass then calls \<open>os.Remove\<close> on each
  entry in that order and drops the results.
\<close>

definition reverse_sorted :: "path list \<Rightarrow> path list" where
  "reverse_sorted dirList = rev (sort dirList)"

definition remove_dirs :: "env \<Rightarrow> world \<Rightarrow> path list \<Rightarrow> world" where
  "remove_dirs E w dirList = fold (\<lambda>dirToRemove w'. snd (os_Remove E w' dirToRemove)) dirList w"

text \<open>
  \<open>CopyDirectory\<close>. Between the two precondition checks and the removal pass the source
  starts the worker goroutines, walks the tree and waits for the workers. That concurrent
  stage is the parameter \<open>stage\<close>: it yields the state the walker and the workers leave,
  with the recorded directory list, or with a panic (the walk function calls \<open>IsDir()\<close> on
  a \<open>FileInfo\<close> that is \<open>nil\<close> when the walk could not \<open>stat\<close> the entry, and a worker
  can panic in \<open>hasSameContent\<close>). The messages are built with \<open>fmt.Sprint\<close>, which writes
  its string operands one after the other, the format verbs unexpanded.
\<close>

type_synonym stage =
  "world \<Rightarrow> path \<Rightarrow> path \<Rightarrow> bool \<Rightarrow> bool \<Rightarrow> bool \<Rightarrow> (panic + path list) \<times> world"

definition CopyDirectory ::
  "stage \<Rightarrow> env \<Rightarrow> world \<Rightarrow> path \<Rightarrow> path \<Rightarrow> bool \<Rightarrow> bool \<Rightarrow> bool
     \<Rightarrow> (panic + error option) \<times> world" where
  "CopyDirectory stage E w source target moveMode fullHashMode recursiveMode =
     (if source = target then
        (Inr (Some (Identical
           (''pcopy: error: %s and %s are identical (not copied).'' @ source @ target))), w)
      else
        let targetStatus = IsFileExist E w target in
        if targetStatus \<noteq> FileExistStatus_Directory then
          (Inr (Some (InvalidTarget
             (''pcopy: error: '' @ target @ '': Invalid target, a directory expected''))), w)
        else
          case stage w source target moveMode fullHashMode recursiveMode of
            (Inl p, w1) \<Rightarrow> (Inl p, w1)
          | (Inr dirList, w1) \<Rightarrow>
              if moveMode then (Inr None, remove_dirs E w1 (reverse_sorted dirList))
              else (Inr None, w1))"

subsection \<open>Example environments and states\<close>

text \<open>
  A stand-in for the digest in the examples: the first sixteen bytes of the input, padded
  with zeros. \<open>calm\<close> is an environment in which no call fails for a reason outside the
  file map; \<open>disk_full\<close> refuses every write, \<open>two_mounts\<close> refuses every rename.
\<close>

definition toy_md5 :: "byte list \<Rightarrow> byte list" where
  "toy_md5 bs = take 16 (bs @ replicate 16 0)"

definition calm :: env where
  "calm = \<lparr>md5sum = toy_md5,
           unreachable = (\<lambda>p. False), unreadable = (\<lambda>p. False), uncreatable = (\<lambda>p. False),
           write_limit = (\<lambda>p. None), close_fails = (\<lambda>p. False),
           rename_fails = (\<lambda>s t. False), remove_fails = (\<lambda>p. False),
           create_mode = 420, clock = 1000\<rparr>"

definition disk_full :: env where
  "disk_full = calm\<lparr>write_limit := (\<lambda>p. Some 0)\<rparr>"

definition two_mounts :: env where
  "two_mounts = calm\<lparr>rename_fails := (\<lambda>s t. True)\<rparr>"

definition album :: world where
  "album = \<lparr>files = [''in'' \<mapsto> Dir 4096 493 1, ''out'' \<mapsto> Dir 4096 493 1,
                     ''in/photo.jpg'' \<mapsto> File [1, 2, 3] 420 7,
                     ''out/photo.jpg'' \<mapsto> File [9, 9, 9] 420 8,
                     ''out/photo(1).jpg'' \<mapsto> File [7, 7, 7] 420 9],
            calls = [], stdout = []\<rparr>"

text \<open>
  \<open>slashes\<close> holds one directory under two spellings of its path. \<open>idle_stage\<close> is a
  concurrent stage that finds an empty tree, \<open>walked_stage\<close> one that has entered four
  directories and moved nothing.
\<close>

definition slashes :: world where
  "slashes = \<lparr>files = [''dir'' \<mapsto> Dir 4096 493 1, ''dir/'' \<mapsto> Dir 4096 493 1],
              calls = [], stdout = []\<rparr>"

definition idle_stage :: stage where
  "idle_stage w source target moveMode fullHashMode recursiveMode = (Inr [], w)"

definition walked_stage :: stage where
  "walked_stage w source target moveMode fullHashMode recursiveMode =
     (Inr [''a'', ''a/b'', ''a-x'', ''a/b/c''], w)"

text \<open>\<open>raws\<close> holds two files of 600000 equal bytes.\<close>

definition raws :: world where
  "raws = \<lparr>files = [''in/a.raw'' \<mapsto> File (replicate 600000 7) 420 1,
                    ''out/a.raw'' \<mapsto> File (replicate 600000 7) 420 2],
           calls = [], stdout = []\<rparr>"

text \<open>
  \<open>race\<close> is a source directory with \<open>photo.jpg\<close> and \<open>photo(1).jpg\<close> and a target directory
  that holds another \<open>photo.jpg\<close>. In move mode \<open>CopyDirectory\<close> hands the two source files
  to two of its ten workers; \<open>race_moved\<close> is the state once the worker of \<open>photo(1).jpg\<close> has
  run its transfer.
\<close>

definition race :: world where
  "race = \<lparr>files = [''in'' \<mapsto> Dir 4096 493 1, ''out'' \<mapsto> Dir 4096 493 1,
                    ''in/photo.jpg'' \<mapsto> File [1, 2, 3] 420 7,
                    ''in/photo(1).jpg'' \<mapsto> File [4, 5, 6] 420 6,
                    ''out/photo.jpg'' \<mapsto> File [9, 9, 9] 420 8],
           calls = [], stdout = []\<rparr>"

definition race_moved :: world where
  "race_moved = snd (doCopyOrMove calm race ''in/photo(1).jpg'' ''out/photo(1).jpg'' True)"

subsection \<open>Terms of the statements\<close>

text \<open>
  A candidate \<open>collides\<close> when it exists and its content is not that of the source: the
  condition under which the loop of \<open>CopyFileInternal\<close> goes on. It \<open>settles\<close> the search
  when it is free or a duplicate of the source.
\<close>

definition collides :: "env \<Rightarrow> world \<Rightarrow> path \<Rightarrow> bool \<Rightarrow> path \<Rightarrow> bool" where
  "collides E w source fullHashMode c \<longleftrightarrow>
     IsFileExist E w c \<noteq> FileExistStatus_NotExist
     \<and> hasSameContent E w source c fullHashMode = Inr False"

definition settles :: "env \<Rightarrow> world \<Rightarrow> path \<Rightarrow> bool \<Rightarrow> path \<Rightarrow> bool" where
  "settles E w source fullHashMode c \<longleftrightarrow>
     IsFileExist E w c = FileExistStatus_NotExist
     \<or> hasSameContent E w source c fullHashMode = Inr True"

text \<open>
  The sampled digest input as the specification describes it, to be compared with what
  \<open>getParticalHash\<close> reads: four windows of 50 KiB at the byte offsets \<open>0\<close>,
  \<open>(size - 50KiB)/3\<close>, \<open>2 (size - 50KiB)/3\<close> and \<open>size - 50KiB\<close>, in that order.
\<close>

definition spec_window :: "byte list \<Rightarrow> int \<Rightarrow> byte list" where
  "spec_window c off = take (50 * 1024) (drop (nat off) c)"

definition spec_sample :: "byte list \<Rightarrow> byte list" where
  "spec_sample c =
     (let size = int (length c)
      in spec_window c 0
         @ spec_window c ((size - 50 * 1024) div 3)
         @ spec_window c (2 * (size - 50 * 1024) div 3)
         @ spec_window c (size - 50 * 1024))"

text \<open>What holds of a result \<open>y\<close> of the loop started at candidate \<open>c\<close>.\<close>

definition probing_post :: "env \<Rightarrow> world \<Rightarrow> path \<Rightarrow> path \<Rightarrow> bool \<Rightarrow> path \<Rightarrow> int \<Rightarrow> panic + path \<Rightarrow> bool" where
  "probing_post E w source target fh c i y \<longleftrightarrow>
     (\<forall>c'. y = Inr c' \<longrightarrow>
        settles E w source fh c' \<and> (c' = c \<or> (\<exists>idx. c' = renameFile target idx)))
     \<and> (\<forall>p. y = Inl p \<longrightarrow> os_Stat E w source = None)"

text \<open>\<open>only_at t w w'\<close>: from \<open>w\<close> to \<open>w'\<close> nothing was printed and no path but \<open>t\<close> changed.\<close>

definition only_at :: "path \<Rightarrow> world \<Rightarrow> world \<Rightarrow> bool" where
  "only_at t w w' \<longleftrightarrow>
     stdout w' = stdout w \<and> (\<forall>p. p \<noteq> t \<longrightarrow> files w' p = files w p)"

text \<open>The calls issued from \<open>w\<close> to \<open>w'\<close>.\<close>

definition issued :: "world \<Rightarrow> world \<Rightarrow> syscall list" where
  "issued w w' = drop (length (calls w)) (calls w')"

text \<open>
  The three outcomes of \<open>CopyFileInternal\<close>, as relations between the state before and the
  state after: the transfer ran on the target, the transfer ran on a renamed target, or
  the copy was skipped for a duplicate \<open>c\<close> (the skip line printed, the source removed in
  move mode, no transfer run).
\<close>

definition transferred_to_original ::
  "env \<Rightarrow> world \<Rightarrow> path \<Rightarrow> path \<Rightarrow> bool \<Rightarrow> world \<Rightarrow> bool" where
  "transferred_to_original E w source target moveMode w' \<longleftrightarrow>
     w' = snd (doCopyOrMove E w source target moveMode)"

definition transferred_to_renamed ::
  "env \<Rightarrow> world \<Rightarrow> path \<Rightarrow> path \<Rightarrow> bool \<Rightarrow> world \<Rightarrow> bool" where
  "transferred_to_renamed E w source target moveMode w' \<longleftrightarrow>
     (\<exists>idx. w' = snd (doCopyOrMove E w source (renameFile target idx) moveMode))"

definition skipped_as_duplicate ::
  "env \<Rightarrow> world \<Rightarrow> path \<Rightarrow> path \<Rightarrow> bool \<Rightarrow> bool \<Rightarrow> world \<Rightarrow> bool" where
  "skipped_as_duplicate E w source target moveMode fullHashMode w' \<longleftrightarrow>
     (\<exists>c. (c = target \<or> (\<exists>idx. c = renameFile target idx))
          \<and> IsFileExist E w c \<noteq> FileExistStatus_NotExist
          \<and> hasSameContent E w source c fullHashMode = Inr True
          \<and> w' = Printf (Skipped source c) (if moveMode then snd (os_Remove E w source) else w))"

section \<open>Verified properties\<close>

lemmas env_defs = calm_def disk_full_def two_mounts_def

lemmas os_defs = os_Stat_def os_Open_def os_Create_def io_Copy_def os_Rename_def
  os_Remove_def os_Chmod_def os_Chtimes_def append_bytes_def read_bytes_def is_dir_def
  issue_def Printf_def

subsection \<open>Tree copier: preconditions and removal order\<close>

lemma prefix_less: "p < p @ c # r" for p :: string
  by (induction p) simp_all

lemma reverse_sorted_desc: "sorted_wrt (\<lambda>x y. y \<le> x) (reverse_sorted xs)"
  by (simp add: reverse_sorted_def sorted_wrt_rev)

lemma calls_remove_dirs: "calls (remove_dirs E w ds) = calls w @ map SysRemove ds"
  by (induction ds arbitrary: w) (simp_all add: remove_dirs_def os_Remove_def issue_def Let_def)

text \<open>
  C8. \<open>CopyDirectory\<close> called with \<open>source = target\<close>, or with a target that \<open>IsFileExist\<close>
  does not report as a directory, returns an error and the state it was given, whatever
  the concurrent stage would do: no call is issued, no line printed, no file changed.
  When \<open>source \<noteq> target\<close> and the target is a directory, the result is not an error value.
\<close>

theorem CopyDirectory_preconditions:
  "(source = target \<or> IsFileExist E w target \<noteq> FileExistStatus_Directory \<longrightarrow>
      (\<exists>e. \<forall>stage. CopyDirectory stage E w source target moveMode fullHashMode recursiveMode
                      = (Inr (Some e), w)))
   \<and> (source \<noteq> target \<and> IsFileExist E w target = FileExistStatus_Directory \<longrightarrow>
      (\<forall>e. fst (CopyDirectory stage E w source target moveMode fullHashMode recursiveMode)
             \<noteq> Inr (Some e)))"
  by (auto simp add: CopyDirectory_def Let_def split: prod.splits sum.splits)

theorem CopyDirectory_preconditions_witness:
  "(\<exists>e. \<forall>stage. CopyDirectory stage calm album ''in'' ''out/photo.jpg'' True False True
                   = (Inr (Some e), album))
   \<and> (\<forall>e. fst (CopyDirectory idle_stage calm album ''in'' ''out'' True False True)
            \<noteq> Inr (Some e))"
proof -
  have a: "IsFileExist calm album ''out/photo.jpg'' \<noteq> FileExistStatus_Directory"
    by (simp add: IsFileExist_def os_Stat_def calm_def album_def)
  have b: "IsFileExist calm album ''out'' = FileExistStatus_Directory"
    by (simp add: IsFileExist_def os_Stat_def calm_def album_def)
  show ?thesis
    using a b
      CopyDirectory_preconditions [of "''in''" "''out/photo.jpg''" calm album True False True]
      CopyDirectory_preconditions [of "''in''" "''out''" calm album True False True idle_stage]
    by simp
qed

text \<open>
  C9. In move mode \<open>CopyDirectory\<close> ends with the removal pass over the reverse-sorted
  directory list: it calls \<open>os.Remove\<close> on the entries of that list, in the order of the
  list, which holds the recorded directories. In that list a path stands before every
  path of which it is an extension by \<open>/\<close> and further bytes: a directory comes before
  each of its ancestors.
\<close>

theorem removal_children_first:
  "(source \<noteq> target \<and> IsFileExist E w target = FileExistStatus_Directory
      \<and> stage w source target True fullHashMode recursiveMode = (Inr dirList, w1) \<longrightarrow>
      CopyDirectory stage E w source target True fullHashMode recursiveMode
        = (Inr None, remove_dirs E w1 (reverse_sorted dirList)))
   \<and> calls (remove_dirs E w1 (reverse_sorted dirList))
       = calls w1 @ map SysRemove (reverse_sorted dirList)
   \<and> set (reverse_sorted dirList) = set dirList
   \<and> (\<forall>i j. i < length (reverse_sorted dirList) \<and> j < length (reverse_sorted dirList)
         \<and> reverse_sorted dirList ! j = reverse_sorted dirList ! i @ CHR ''/'' # rest
        \<longrightarrow> j < i)"
proof -
  let ?ys = "reverse_sorted dirList"
  have desc: "sorted_wrt (\<lambda>x y. y \<le> x) ?ys" by (rule reverse_sorted_desc)
  have "j < i" if i: "i < length ?ys" and j: "j < length ?ys"
    and pre: "?ys ! j = ?ys ! i @ CHR ''/'' # rest" for i j
  proof (rule ccontr)
    assume "\<not> j < i"
    then have "i = j \<or> i < j" by auto
    then show False
    proof
      assume "i = j" with pre show False by simp
    next
      assume "i < j"
      from sorted_wrt_nth_less [OF desc this j] have "?ys ! j \<le> ?ys ! i" .
      moreover have "?ys ! i < ?ys ! j" unfolding pre by (rule prefix_less)
      ultimately show False by simp
    qed
  qed
  moreover have "set ?ys = set dirList" by (simp add: reverse_sorted_def)
  moreover have "source \<noteq> target \<and> IsFileExist E w target = FileExistStatus_Directory
      \<and> stage w source target True fullHashMode recursiveMode = (Inr dirList, w1) \<longrightarrow>
      CopyDirectory stage E w source target True fullHashMode recursiveMode
        = (Inr None, remove_dirs E w1 ?ys)"
    by (simp add: CopyDirectory_def)
  ultimately show ?thesis
    using calls_remove_dirs [of E w1 ?ys] by blast
qed

lemma reverse_sorted_example:
  "reverse_sorted [''a'', ''a/b'', ''a-x'', ''a/b/c''] = [''a/b/c'', ''a/b'', ''a-x'', ''a'']"
  by (simp add: reverse_sorted_def insort_key.simps)

theorem removal_children_first_witness:
  "''in'' \<noteq> ''out'' \<and> IsFileExist calm album ''out'' = FileExistStatus_Directory
   \<and> walked_stage album ''in'' ''out'' True False True
       = (Inr [''a'', ''a/b'', ''a-x'', ''a/b/c''], album)
   \<and> calls (snd (CopyDirectory walked_stage calm album ''in'' ''out'' True False True))
       = [SysRemove ''a/b/c'', SysRemove ''a/b'', SysRemove ''a-x'', SysRemove ''a'']
   \<and> reverse_sorted [''a'', ''a/b'', ''a-x'', ''a/b/c''] ! 0
       = reverse_sorted [''a'', ''a/b'', ''a-x'', ''a/b/c''] ! 1 @ CHR ''/'' # ''c''"
proof -
  have a: "IsFileExist calm album ''out'' = FileExistStatus_Directory"
    by (simp add: IsFileExist_def os_Stat_def calm_def album_def)
  have b: "walked_stage album ''in'' ''out'' True False True
             = (Inr [''a'', ''a/b'', ''a-x'', ''a/b/c''], album)"
    by (simp add: walked_stage_def)
  have c: "calls album = []" by (simp add: album_def)
  show ?thesis
    using a b c
      removal_children_first [of "''in''" "''out''" calm album walked_stage False True
        "[''a'', ''a/b'', ''a-x'', ''a/b/c'']" album "''c''"]
    by (simp add: reverse_sorted_example)
qed

text \<open>
  C10. The first check of \<open>CopyDirectory\<close> compares the two arguments as strings: the
  \<open>Identical\<close> error is returned exactly when they are equal. Whenever the arguments differ
  and the target is a directory, the call runs its concurrent stage and its result is
  what the stage and the removal pass make of it. That is so for \<open>dir\<close> and \<open>dir/\<close>, two
  different strings that resolve to one directory: for every stage, both checks pass and
  the tree copy proceeds.
\<close>

theorem identical_check_is_string_equality:
  "((\<exists>msg. fst (CopyDirectory stage E w source target moveMode fullHashMode recursiveMode)
             = Inr (Some (Identical msg))) \<longleftrightarrow> source = target)
   \<and> (source \<noteq> target \<and> IsFileExist E w target = FileExistStatus_Directory \<longrightarrow>
        CopyDirectory stage E w source target moveMode fullHashMode recursiveMode
          = (case stage w source target moveMode fullHashMode recursiveMode of
               (Inl p, w1) \<Rightarrow> (Inl p, w1)
             | (Inr dirList, w1) \<Rightarrow>
                 if moveMode then (Inr None, remove_dirs E w1 (reverse_sorted dirList))
                 else (Inr None, w1)))
   \<and> ''dir'' \<noteq> ''dir/'' \<and> files slashes ''dir'' = files slashes ''dir/''
   \<and> CopyDirectory stage calm slashes ''dir'' ''dir/'' moveMode fullHashMode recursiveMode
       = (case stage slashes ''dir'' ''dir/'' moveMode fullHashMode recursiveMode of
            (Inl p, w1) \<Rightarrow> (Inl p, w1)
          | (Inr dirList, w1) \<Rightarrow>
              if moveMode then (Inr None, remove_dirs calm w1 (reverse_sorted dirList))
              else (Inr None, w1))"
proof -
  have iff: "(\<exists>msg. fst (CopyDirectory stage E w source target moveMode fullHashMode recursiveMode)
             = Inr (Some (Identical msg))) \<longleftrightarrow> source = target"
    by (auto simp add: CopyDirectory_def Let_def split: prod.splits sum.splits)
  have go: "CopyDirectory stage E w source target moveMode fullHashMode recursiveMode
          = (case stage w source target moveMode fullHashMode recursiveMode of
               (Inl p, w1) \<Rightarrow> (Inl p, w1)
             | (Inr dirList, w1) \<Rightarrow>
                 if moveMode then (Inr None, remove_dirs E w1 (reverse_sorted dirList))
                 else (Inr None, w1))"
    if "source \<noteq> target \<and> IsFileExist E w target = FileExistStatus_Directory"
    for E w source target
    using that by (simp add: CopyDirectory_def)
  have d: "IsFileExist calm slashes ''dir/'' = FileExistStatus_Directory"
    by (simp add: IsFileExist_def os_Stat_def calm_def slashes_def)
  have same: "files slashes ''dir'' = files slashes ''dir/''"
    by (simp add: slashes_def)
  have "''dir'' \<noteq> ''dir/''" by simp
  with iff go [of source target E w] go [of "''dir''" "''dir/''" calm slashes] d same
  show ?thesis by blast
qed

theorem identical_check_is_string_equality_witness:
  "(\<exists>msg. fst (CopyDirectory walked_stage calm slashes ''dir'' ''dir'' True False True)
            = Inr (Some (Identical msg)))
   \<and> ''dir'' \<noteq> ''dir/'' \<and> IsFileExist calm slashes ''dir/'' = FileExistStatus_Directory
   \<and> \<not> (\<exists>msg. fst (CopyDirectory walked_stage calm slashes ''dir'' ''dir/'' True False True)
            = Inr (Some (Identical msg)))
   \<and> CopyDirectory walked_stage calm slashes ''dir'' ''dir/'' True False True
       = (Inr None, remove_dirs calm slashes [''a/b/c'', ''a/b'', ''a-x'', ''a''])
   \<and> calls (snd (CopyDirectory walked_stage calm slashes ''dir'' ''dir/'' True False True))
       = [SysRemove ''a/b/c'', SysRemove ''a/b'', SysRemove ''a-x'', SysRemove ''a'']"
proof -
  have d: "IsFileExist calm slashes ''dir/'' = FileExistStatus_Directory"
    by (simp add: IsFileExist_def os_Stat_def calm_def slashes_def)
  have c: "calls slashes = []" by (simp add: slashes_def)
  show ?thesis
    using d c
      identical_check_is_string_equality
        [of walked_stage calm slashes "''dir''" "''dir''" True False True]
      identical_check_is_string_equality
        [of walked_stage calm slashes "''dir''" "''dir/''" True False True]
    by (simp add: walked_stage_def reverse_sorted_example calls_remove_dirs)
qed

subsection \<open>Single-entry transfer\<close>

lemma doCopyOrMove_returns_nil: "fst (doCopyOrMove E w source target moveMode) = None"
  by (simp add: doCopyOrMove_def Let_def)

lemma doCopy_reports_copy_error:
  "os_Stat E w source = Some fi \<Longrightarrow> os_Open E w source \<Longrightarrow>
   fst (os_Create E w target) \<Longrightarrow>
   fst (io_Copy E (snd (os_Create E w target)) target source) \<noteq> None \<or> close_fails E target \<Longrightarrow>
   fst (doCopy E w source target) \<noteq> None"
  by (auto simp add: doCopy_def Let_def split: prod.splits bool.splits option.splits)

text \<open>
  C4. On a full disk the copy of \<open>in/photo.jpg\<close> to the free name \<open>out/new.jpg\<close> creates
  the target and fails in \<open>io.Copy\<close>: \<open>doCopy\<close> returns the error, and \<open>doCopyOrMove\<close> in copy
  mode, which drops that result, returns \<open>nil\<close>.
\<close>

theorem doCopyOrMove_hides_copy_error:
  "fst (doCopy disk_full album ''in/photo.jpg'' ''out/new.jpg'')
     = Some (PathError ''write'' ''out/new.jpg'')
   \<and> fst (doCopyOrMove disk_full album ''in/photo.jpg'' ''out/new.jpg'' False) = None"
  by (simp add: doCopy_def doCopyOrMove_def env_defs os_defs album_def Let_def)

text \<open>
  C7, as stated, fails: where every rename is refused, the move of \<open>in/photo.jpg\<close> to
  \<open>out/new.jpg\<close> leaves the target missing and the source in place; no byte is copied.
\<close>

theorem move_fallback_counterexample:
  "files (snd (doCopyOrMove two_mounts album ''in/photo.jpg'' ''out/new.jpg'' True))
     ''out/new.jpg'' = None
   \<and> files (snd (doCopyOrMove two_mounts album ''in/photo.jpg'' ''out/new.jpg'' True))
     ''in/photo.jpg'' = Some (File [1, 2, 3] 420 7)
   \<and> calls (snd (doCopyOrMove two_mounts album ''in/photo.jpg'' ''out/new.jpg'' True))
     = [SysRename ''in/photo.jpg'' ''out/new.jpg'']"
  by (simp add: doCopyOrMove_def env_defs os_defs album_def Let_def)

text \<open>
  C7, amended. A move-mode transfer issues one rename of the source to the target and
  no other call, and prints one record. When the rename is refused nothing else is tried:
  the file map is as before, so the source keeps its content and the target does not
  receive it. When the rename succeeds the source's node is at the target path and,
  unless the two paths are equal, no longer at the source path.
\<close>

theorem move_is_one_rename:
  "calls (snd (doCopyOrMove E w source target True)) = calls w @ [SysRename source target]
   \<and> stdout (snd (doCopyOrMove E w source target True)) = stdout w @ [Moved source target]
   \<and> (\<not> fst (os_Rename E w source target) \<longrightarrow>
        files (snd (doCopyOrMove E w source target True)) = files w)
   \<and> (fst (os_Rename E w source target) \<longrightarrow>
        files (snd (doCopyOrMove E w source target True))
          = ((files w)(source := None))(target := files w source))"
  by (auto simp add: doCopyOrMove_def os_Rename_def issue_def Printf_def Let_def
      split: option.splits)

theorem move_is_one_rename_witness:
  "\<not> fst (os_Rename two_mounts album ''in/photo.jpg'' ''out/new.jpg'')
   \<and> files (snd (doCopyOrMove two_mounts album ''in/photo.jpg'' ''out/new.jpg'' True))
       = files album
   \<and> fst (os_Rename calm album ''in/photo.jpg'' ''out/new.jpg'')
   \<and> files (snd (doCopyOrMove calm album ''in/photo.jpg'' ''out/new.jpg'' True)) ''out/new.jpg''
       = Some (File [1, 2, 3] 420 7)"
proof -
  have a: "\<not> fst (os_Rename two_mounts album ''in/photo.jpg'' ''out/new.jpg'')"
    by (simp add: env_defs os_defs album_def Let_def)
  have b: "fst (os_Rename calm album ''in/photo.jpg'' ''out/new.jpg'')"
    by (simp add: env_defs os_defs album_def Let_def)
  have c: "files album ''in/photo.jpg'' = Some (File [1, 2, 3] 420 7)"
    by (simp add: album_def)
  show ?thesis
    using a b c
      move_is_one_rename [of two_mounts album "''in/photo.jpg''" "''out/new.jpg''"]
      move_is_one_rename [of calm album "''in/photo.jpg''" "''out/new.jpg''"]
    by simp
qed

subsection \<open>Content comparator\<close>

text \<open>
  What \<open>hasSameContent\<close> does with failures: a failed \<open>stat\<close> on either path is a panic;
  with both \<open>stat\<close> calls successful, a file that cannot be opened has the empty digest
  and the result is \<open>false\<close>; the result \<open>true\<close> needs equal sizes and two files that open.
\<close>

lemma hasSameContent_stat_failure:
  "os_Stat E w source = None \<or> os_Stat E w target = None \<Longrightarrow>
   hasSameContent E w source target fullHashMode = Inl NilDereference"
  by (auto simp add: hasSameContent_def split: option.splits)

lemma hasSameContent_open_failure:
  "os_Stat E w source \<noteq> None \<Longrightarrow> os_Stat E w target \<noteq> None \<Longrightarrow>
   \<not> os_Open E w source \<or> \<not> os_Open E w target \<Longrightarrow>
   hasSameContent E w source target fullHashMode = Inr False"
  by (auto simp add: hasSameContent_def getFullHash_def getParticalHash_def Let_def
      split: option.splits)

lemma hasSameContent_true:
  "hasSameContent E w source target fullHashMode = Inr True \<Longrightarrow>
   (\<exists>fs ft. os_Stat E w source = Some fs \<and> os_Stat E w target = Some ft
      \<and> fi_Size fs = fi_Size ft)
   \<and> os_Open E w source \<and> os_Open E w target"
  by (auto simp add: hasSameContent_def getFullHash_def getParticalHash_def Let_def
      split: option.splits if_splits)

text \<open>
  C3. With a source that does not exist, so that its \<open>stat\<close> fails, \<open>hasSameContent\<close> does
  not return \<open>false\<close>: it panics on the \<open>nil\<close> \<open>FileInfo\<close>, in either hash mode.
\<close>

theorem hasSameContent_stat_failure_panics:
  "hasSameContent calm album ''in/missing.jpg'' ''out/photo.jpg'' False = Inl NilDereference
   \<and> hasSameContent calm album ''in/missing.jpg'' ''out/photo.jpg'' True = Inl NilDereference"
  by (simp add: hasSameContent_def env_defs os_defs album_def)

lemma wrap64_id: "- (2 ^ 63) \<le> x \<Longrightarrow> x < 2 ^ 63 \<Longrightarrow> wrap64 x = x"
  by (simp add: wrap64_def)

lemma quo_nonneg: "0 \<le> a \<Longrightarrow> 0 < b \<Longrightarrow> quo a b = a div b"
  by (simp add: quo_def)

lemma thirds_ordered:
  "0 \<le> (d::int) \<Longrightarrow> 0 \<le> d div 3 \<and> d div 3 \<le> 2 * d div 3 \<and> 2 * d div 3 \<le> d"
  by presburger

lemma blockOffsets_in_range:
  assumes "500 * 1024 < n" and "n \<le> 2 ^ 62 + 51199"
  shows "blockOffsets n = [0, (n - blockSize) div 3, 2 * (n - blockSize) div 3, n - blockSize]"
proof -
  define d where "d = n - blockSize"
  have d: "0 \<le> d" "d < 2 ^ 62" using assms by (simp_all add: d_def blockSize_def)
  have a: "wrap64 d = d" using d by (intro wrap64_id) simp_all
  have b: "wrap64 (2 * d) = 2 * d" using d by (intro wrap64_id) simp_all
  have "blockOffsets n = [0, quo (wrap64 d) 3, quo (wrap64 (2 * wrap64 d)) 3, wrap64 d]"
    by (simp only: blockOffsets_def d_def)
  also have "\<dots> = [0, d div 3, 2 * d div 3, d]"
    using d by (simp only: a b) (simp add: quo_nonneg)
  finally show ?thesis by (simp only: d_def)
qed

lemma read_blocks_four:
  "0 \<le> a \<Longrightarrow> 0 \<le> b \<Longrightarrow> 0 \<le> c \<Longrightarrow> 0 \<le> d \<Longrightarrow>
   read_blocks bs [a, b, c, d] 0 [] =
     spec_window bs a @ spec_window bs b @ spec_window bs c @ spec_window bs d"
  by (simp add: Let_def blockSize_def spec_window_def)

lemma spec_sample_unfold:
  "spec_sample c = spec_window c 0 @ spec_window c ((int (length c) - blockSize) div 3)
     @ spec_window c (2 * (int (length c) - blockSize) div 3)
     @ spec_window c (int (length c) - blockSize)"
  by (simp add: spec_sample_def Let_def blockSize_def)

text \<open>
  C5. For a file of \<open>2^62 + 50 KiB\<close>, which exceeds 500 KiB, the offsets that
  \<open>getParticalHash\<close> computes are not the four of the claim: the product
  \<open>2 * (filesize - blockSize)\<close> leaves the range of \<open>int64\<close> and wraps around, so the third
  offset is negative, lies outside the file, and the offsets are not in order. (The
  \<open>Seek\<close> to it fails, the error is dropped, and the third window is read where the second
  one ended.)
\<close>

theorem sampled_offsets_overflow: "500 * 1024 < (2 ^ 62 + 51200 :: int)
  \<and> blockOffsets (2 ^ 62 + 51200) = [0, 1537228672809129301, - 3074457345618258602, 4611686018427387904]
  \<and> \<not> sorted (blockOffsets (2 ^ 62 + 51200))"
  by (simp add: blockOffsets_def blockSize_def wrap64_def quo_def)

text \<open>
  The sampled strategy where the product does not wrap, that is for sizes up to
  \<open>2^62 + 51199\<close>. For two paths whose \<open>stat\<close> gives the same size, \<open>hasSameContent\<close>
  compares the sampled digests exactly when \<open>fullHashMode\<close> is false and the size exceeds
  500 KiB, and the full digests otherwise. For a size above 500 KiB and within the bound,
  the offsets are \<open>0\<close>, \<open>(size - 50KiB)/3\<close>, \<open>2 (size - 50KiB)/3\<close> and \<open>size - 50KiB\<close>, they
  are in non-decreasing order and each window of 50 KiB lies within the file; the sampled
  digest of a regular file of that size that opens is the digest of the four windows, one
  after the other.
\<close>

lemma sampled_strategy:
  "(os_Stat E w a = Some fa \<and> os_Stat E w b = Some fb \<and> fi_Size fa = fi_Size fb \<longrightarrow>
      hasSameContent E w a b fullHashMode =
        Inr (if \<not> fullHashMode \<and> 500 * 1024 < fi_Size fa
             then getParticalHash E w a (fi_Size fa) = getParticalHash E w b (fi_Size fa)
                  \<and> getParticalHash E w a (fi_Size fa) \<noteq> [] \<and> getParticalHash E w b (fi_Size fa) \<noteq> []
             else getFullHash E w a = getFullHash E w b
                  \<and> getFullHash E w a \<noteq> [] \<and> getFullHash E w b \<noteq> []))
   \<and> (500 * 1024 < n \<and> n \<le> 2 ^ 62 + 51199 \<longrightarrow>
        blockOffsets n = [0, (n - blockSize) div 3, 2 * (n - blockSize) div 3, n - blockSize]
        \<and> sorted (blockOffsets n)
        \<and> (\<forall>off \<in> set (blockOffsets n). 0 \<le> off \<and> off + blockSize \<le> n))
   \<and> (files w p = Some (File c m t) \<and> os_Open E w p
        \<and> 500 * 1024 < int (length c) \<and> int (length c) \<le> 2 ^ 62 + 51199 \<longrightarrow>
        getParticalHash E w p (int (length c)) = hex (md5sum E (spec_sample c)))"
proof (intro conjI impI)
  assume "os_Stat E w a = Some fa \<and> os_Stat E w b = Some fb \<and> fi_Size fa = fi_Size fb"
  then show "hasSameContent E w a b fullHashMode =
        Inr (if \<not> fullHashMode \<and> 500 * 1024 < fi_Size fa
             then getParticalHash E w a (fi_Size fa) = getParticalHash E w b (fi_Size fa)
                  \<and> getParticalHash E w a (fi_Size fa) \<noteq> [] \<and> getParticalHash E w b (fi_Size fa) \<noteq> []
             else getFullHash E w a = getFullHash E w b
                  \<and> getFullHash E w a \<noteq> [] \<and> getFullHash E w b \<noteq> [])"
    by (simp add: hasSameContent_def Let_def)
next
  assume r: "500 * 1024 < n \<and> n \<le> 2 ^ 62 + 51199"
  then have eq: "blockOffsets n = [0, (n - blockSize) div 3, 2 * (n - blockSize) div 3, n - blockSize]"
    by (simp add: blockOffsets_in_range)
  from r have "0 \<le> n - blockSize" by (simp add: blockSize_def)
  note o = thirds_ordered [OF this]
  show "blockOffsets n = [0, (n - blockSize) div 3, 2 * (n - blockSize) div 3, n - blockSize]"
    by (rule eq)
  show "sorted (blockOffsets n)" unfolding eq using o by simp
  have "0 \<le> blockSize" by (simp add: blockSize_def)
  then show "\<forall>off \<in> set (blockOffsets n). 0 \<le> off \<and> off + blockSize \<le> n"
    unfolding eq using o by auto
next
  assume f: "files w p = Some (File c m t) \<and> os_Open E w p
        \<and> 500 * 1024 < int (length c) \<and> int (length c) \<le> 2 ^ 62 + 51199"
  let ?n = "int (length c)"
  from f have eq: "blockOffsets ?n = [0, (?n - blockSize) div 3, 2 * (?n - blockSize) div 3, ?n - blockSize]"
    by (simp add: blockOffsets_in_range)
  from f have "0 \<le> ?n - blockSize" by (simp add: blockSize_def)
  note o = thirds_ordered [OF this]
  have "read_blocks c (blockOffsets ?n) 0 [] = spec_sample c"
    unfolding eq spec_sample_unfold using o by (intro read_blocks_four) simp_all
  with f show "getParticalHash E w p (int (length c)) = hex (md5sum E (spec_sample c))"
    by (simp add: getParticalHash_def read_bytes_def)
qed

lemma sampled_strategy_example:
  "hasSameContent calm raws ''in/a.raw'' ''out/a.raw'' False
     = Inr (getParticalHash calm raws ''in/a.raw'' 600000 = getParticalHash calm raws ''out/a.raw'' 600000
         \<and> getParticalHash calm raws ''in/a.raw'' 600000 \<noteq> [] \<and> getParticalHash calm raws ''out/a.raw'' 600000 \<noteq> [])
   \<and> blockOffsets 600000 = [0, 182933, 365866, 548800]
   \<and> getParticalHash calm raws ''in/a.raw'' 600000 = hex (md5sum calm (spec_sample (replicate 600000 7)))"
proof -
  have s: "os_Stat calm raws ''in/a.raw'' = Some \<lparr>fi_Size = 600000, fi_IsDir = False, fi_Mode = 420, fi_ModTime = 1\<rparr>"
     "os_Stat calm raws ''out/a.raw'' = Some \<lparr>fi_Size = 600000, fi_IsDir = False, fi_Mode = 420, fi_ModTime = 2\<rparr>"
    by (simp_all add: os_Stat_def calm_def raws_def)
  have f: "files raws ''in/a.raw'' = Some (File (replicate 600000 7) 420 1)" "os_Open calm raws ''in/a.raw''"
    by (simp_all add: os_Open_def calm_def raws_def)
  show ?thesis
    using s f sampled_strategy [of calm raws "''in/a.raw''" "\<lparr>fi_Size = 600000, fi_IsDir = False, fi_Mode = 420, fi_ModTime = 1\<rparr>"
       "''out/a.raw''" "\<lparr>fi_Size = 600000, fi_IsDir = False, fi_Mode = 420, fi_ModTime = 2\<rparr>" False 600000
       "''in/a.raw''" "replicate 600000 7" 420 1]
    by (simp add: blockSize_def)
qed

subsection \<open>Collision resolver\<close>

lemma Ext_scan_suffix: "\<exists>pre. rev xs @ seen = pre @ Ext_scan xs seen"
  by (induction xs arbitrary: seen) auto

lemma Ext_suffix: "\<exists>stem. p = stem @ Ext p"
  using Ext_scan_suffix [of "rev p" "[]"] by (simp add: Ext_def)

lemma renameFile_shape:
  "p = stem @ Ext p \<Longrightarrow> renameFile p i = stem @ ''('' @ Itoa i @ '')'' @ Ext p"
proof -
  assume a: "p = stem @ Ext p"
  then have "length p = length stem + length (Ext p)" by (metis length_append)
  then have "take (length p - length (Ext p)) p = stem" using a
    by (metis add_diff_cancel_right' append_eq_conv_conj)
  then show ?thesis by (simp add: renameFile_def Let_def)
qed

lemma digit_code: "d < 10 \<Longrightarrow> of_char (digit d) = (48 + d :: nat)"
proof -
  assume "d < 10"
  then have "d \<in> {0, 1, 2, 3, 4, 5, 6, 7, 8, 9}" by auto
  then show ?thesis by (auto simp add: digit_def)
qed

lemma dec_head: "\<exists>d r. d < 10 \<and> dec n = digit d # r"
proof (induction n rule: dec.induct)
  case (1 n)
  show ?case
  proof (cases "n < 10")
    case True then show ?thesis by (subst dec.simps) auto
  next
    case False
    with 1 obtain d r where "d < 10" "dec (n div 10) = digit d # r" by auto
    with False show ?thesis by (subst dec.simps) auto
  qed
qed

lemma dec_nonempty: "dec n \<noteq> []" "[] \<noteq> dec n"
  using dec_head [of n] by auto

lemma digit_inj: "d < 10 \<Longrightarrow> e < 10 \<Longrightarrow> digit d = digit e \<Longrightarrow> d = e"
proof -
  assume d: "d < 10" and e: "e < 10" and "digit d = digit e"
  then have "(of_char (digit d) :: nat) = of_char (digit e)" by (simp only:)
  then have "48 + d = 48 + e" by (simp only: digit_code [OF d] digit_code [OF e])
  then show ?thesis by simp
qed

lemma dec_inj: "dec m = dec n \<Longrightarrow> m = n"
proof (induction m arbitrary: n rule: dec.induct)
  case (1 m)
  show ?case
  proof (cases "m < 10")
    case m: True
    show ?thesis
    proof (cases "n < 10")
      case True
      with m 1(2) show ?thesis by (simp add: dec.simps [of m] dec.simps [of n] digit_inj)
    next
      case False
      with m 1(2) show ?thesis by (simp add: dec.simps [of m] dec.simps [of n] dec_nonempty)
    qed
  next
    case m: False
    show ?thesis
    proof (cases "n < 10")
      case True
      with m 1(2) show ?thesis by (simp add: dec.simps [of m] dec.simps [of n] dec_nonempty)
    next
      case False
      with m 1(2) have e: "dec (m div 10) = dec (n div 10)" "digit (m mod 10) = digit (n mod 10)"
        by (simp_all add: dec.simps [of m] dec.simps [of n])
      from 1(1) [OF m e(1)] have "m div 10 = n div 10" .
      moreover from e(2) have "m mod 10 = n mod 10" by (intro digit_inj) simp_all
      ultimately show ?thesis by (metis div_mult_mod_eq)
    qed
  qed
qed

lemma digit_not_minus: "d < 10 \<Longrightarrow> digit d \<noteq> CHR ''-''"
proof
  assume d: "d < 10" and "digit d = CHR ''-''"
  then have "(of_char (digit d) :: nat) = of_char CHR ''-''" by (simp only:)
  then show False by (simp add: digit_code [OF d])
qed

lemma Itoa_inj: "Itoa i = Itoa j \<Longrightarrow> i = j"
proof -
  assume a: "Itoa i = Itoa j"
  obtain d r where d: "d < 10" "dec (nat i) = digit d # r" using dec_head by blast
  obtain e s where e: "e < 10" "dec (nat j) = digit e # s" using dec_head by blast
  show ?thesis
  proof (cases "i < 0")
    case i: True
    show ?thesis
    proof (cases "j < 0")
      case True
      with i a have "nat (- i) = nat (- j)" by (simp add: Itoa_def dec_inj)
      with i True show ?thesis by simp
    next
      case False
      with i a e show ?thesis using digit_not_minus [of e] by (auto simp add: Itoa_def)
    qed
  next
    case i: False
    show ?thesis
    proof (cases "j < 0")
      case True
      with i a d show ?thesis using digit_not_minus [of d] by (auto simp add: Itoa_def)
    next
      case False
      with i a have "nat i = nat j" by (simp add: Itoa_def dec_inj)
      with i False show ?thesis by simp
    qed
  qed
qed

lemma renameFile_inj: "renameFile t i = renameFile t j \<Longrightarrow> i = j"
proof -
  obtain stem where s: "t = stem @ Ext t" using Ext_suffix by blast
  assume "renameFile t i = renameFile t j"
  then have "Itoa i @ '')'' @ Ext t = Itoa j @ '')'' @ Ext t"
    by (simp add: renameFile_shape [OF s])
  then show ?thesis by (simp add: Itoa_inj)
qed

lemma renameFile_longer: "length t < length (renameFile t i)"
proof -
  obtain stem where s: "t = stem @ Ext t" using Ext_suffix by blast
  have "length (renameFile t i) = length stem + length (Ext t) + 2 + length (Itoa i)"
    by (simp add: renameFile_shape [OF s])
  moreover have "length t = length stem + length (Ext t)" by (metis s length_append)
  ultimately show ?thesis by simp
qed

lemma renameFile_neq: "renameFile t i \<noteq> t"
  using renameFile_longer [of t i] by auto

lemma probing_advance:
  "collides E w source fh c \<Longrightarrow>
   probing E w source target fh c i =
     probing E w source target fh (renameFile target i) (wrap64 (i + 1))"
  by (subst probing.simps) (simp add: collides_def)

lemma probing_settles:
  "settles E w source fh c \<Longrightarrow> probing E w source target fh c i = Some (Inr c)"
  by (subst probing.simps) (auto simp add: settles_def)

lemma probing_panics:
  "IsFileExist E w c \<noteq> FileExistStatus_NotExist \<Longrightarrow>
   hasSameContent E w source c fh = Inl p \<Longrightarrow>
   probing E w source target fh c i = Some (Inl p)"
  by (subst probing.simps) simp

lemma probing_stops:
  "\<not> collides E w source fh c \<Longrightarrow> \<exists>r. probing E w source target fh c i = Some r"
  by (subst probing.simps) (auto simp add: collides_def split: sum.splits)

lemma probing_run:
  assumes "k < 2 ^ 63"
    and "\<forall>j. i \<le> j \<and> j < k \<longrightarrow> collides E w source fh (renameFile target (int j))"
    and "i \<le> k"
  shows "probing E w source target fh (renameFile target (int i)) (wrap64 (int i + 1))
           = probing E w source target fh (renameFile target (int k)) (wrap64 (int k + 1))"
  using assms(2,3)
proof (induction "k - i" arbitrary: i)
  case 0
  then show ?case by simp
next
  case (Suc d)
  then have lt: "i < k" by simp
  with Suc.prems have c: "collides E w source fh (renameFile target (int i))" by simp
  have "int i + 1 < 2 ^ 63" using lt assms(1) by simp
  then have w: "wrap64 (int i + 1) = int (Suc i)" by (simp add: wrap64_id)
  have "probing E w source target fh (renameFile target (int i)) (wrap64 (int i + 1))
          = probing E w source target fh (renameFile target (int (Suc i))) (wrap64 (int (Suc i) + 1))"
    by (simp add: probing_advance [OF c] w)
  also have "\<dots> = probing E w source target fh (renameFile target (int k)) (wrap64 (int k + 1))"
    using Suc.hyps(2) Suc.prems lt by (intro Suc.hyps(1)) auto
  finally show ?case .
qed

lemma probing_from_target:
  assumes "collides E w source fh target" and "0 < k" and "k < 2 ^ 63"
    and "\<forall>j. 0 < j \<and> j < k \<longrightarrow> collides E w source fh (renameFile target (int j))"
  shows "probing E w source target fh target 1
           = probing E w source target fh (renameFile target (int k)) (wrap64 (int k + 1))"
proof -
  have "probing E w source target fh target 1
          = probing E w source target fh (renameFile target (int 1)) (wrap64 (int 1 + 1))"
    by (simp add: probing_advance [OF assms(1)])
  also have "\<dots> = probing E w source target fh (renameFile target (int k)) (wrap64 (int k + 1))"
    using assms by (intro probing_run) auto
  finally show ?thesis .
qed

lemma free_candidate:
  assumes "finite (dom (files w))" and "card (dom (files w)) < 2 ^ 63 - 1"
  shows "\<exists>k. 0 < k \<and> k < 2 ^ 63 \<and> files w (renameFile target (int k)) = None"
proof (rule ccontr)
  assume "\<not> ?thesis"
  then have sub: "(\<lambda>k. renameFile target (int k)) ` {1 ..< 2 ^ 63} \<subseteq> dom (files w)"
    by (auto simp add: dom_def)
  have "inj_on (\<lambda>k. renameFile target (int k)) {1 ..< 2 ^ 63}"
    by (rule inj_onI) (auto dest: renameFile_inj)
  then have "card ((\<lambda>k. renameFile target (int k)) ` {1 ..< (2::nat) ^ 63}) = 2 ^ 63 - 1"
    by (simp add: card_image)
  with card_mono [OF assms(1) sub] assms(2) show False by simp
qed

lemma absent_not_colliding:
  "files w c = None \<Longrightarrow> \<not> collides E w source fh c"
  by (simp add: collides_def IsFileExist_def os_Stat_def)

lemma probing_total:
  assumes "finite (dom (files w))" and "card (dom (files w)) < 2 ^ 63 - 1"
  shows "\<exists>r. probing E w source target fh target 1 = Some r"
proof (cases "collides E w source fh target")
  case False
  then show ?thesis by (rule probing_stops)
next
  case True
  obtain k0 where k0: "0 < k0" "k0 < 2 ^ 63" "files w (renameFile target (int k0)) = None"
    using free_candidate [OF assms] by blast
  define P where "P k \<longleftrightarrow> 0 < k \<and> \<not> collides E w source fh (renameFile target (int k))" for k
  have "P k0" using k0 by (simp add: P_def absent_not_colliding)
  define k where "k = (LEAST k. P k)"
  have Pk: "P k" unfolding k_def using \<open>P k0\<close> by (rule LeastI)
  have le: "k \<le> k0" unfolding k_def using \<open>P k0\<close> by (rule Least_le)
  have below: "\<forall>j. 0 < j \<and> j < k \<longrightarrow> collides E w source fh (renameFile target (int j))"
  proof (intro allI impI)
    fix j assume j: "0 < j \<and> j < k"
    then have "\<not> P j" unfolding k_def using not_less_Least by blast
    with j show "collides E w source fh (renameFile target (int j))" by (simp add: P_def)
  qed
  have "probing E w source target fh target 1
          = probing E w source target fh (renameFile target (int k)) (wrap64 (int k + 1))"
    using True Pk le k0 below by (intro probing_from_target) (auto simp add: P_def)
  moreover have "\<exists>r. probing E w source target fh (renameFile target (int k)) (wrap64 (int k + 1)) = Some r"
    using Pk by (intro probing_stops) (simp add: P_def)
  ultimately show ?thesis by simp
qed

lemma probing_result:
  assumes "probing E w source target fh c i = Some y"
  shows "probing_post E w source target fh c i y"
proof (rule probing.raw_induct [where P = probing_post, OF _ assms], goal_cases)
  case (1 probing E w source target fh c i y)
  show ?case
  proof (cases "IsFileExist E w c = FileExistStatus_NotExist")
    case True
    with 1(2) show ?thesis by (auto simp add: settles_def probing_post_def)
  next
    case ex: False
    then have st: "os_Stat E w c \<noteq> None"
      by (auto simp add: IsFileExist_def split: option.splits)
    show ?thesis
    proof (cases "hasSameContent E w source c fh")
      case (Inl q)
      then have "os_Stat E w source = None" using st
        by (auto simp add: hasSameContent_def Let_def split: option.splits if_splits prod.splits)
      with ex Inl 1(2) show ?thesis by (auto simp add: probing_post_def)
    next
      case (Inr same)
      show ?thesis
      proof (cases same)
        case True
        with ex Inr 1(2) show ?thesis by (auto simp add: settles_def probing_post_def)
      next
        case False
        with ex Inr 1(2)
        have "probing E w source target fh (renameFile target i) (wrap64 (i + 1)) = Some y"
          by simp
        from 1(1) [OF this] show ?thesis by (auto simp add: probing_post_def)
      qed
    qed
  qed
qed

lemma only_at_refl: "only_at t w w"
  by (simp add: only_at_def)

lemma only_at_trans: "only_at t w w1 \<Longrightarrow> only_at t w1 w2 \<Longrightarrow> only_at t w w2"
  by (simp add: only_at_def)

lemma os_Create_only_at: "only_at t w (snd (os_Create E w t))"
  by (simp add: only_at_def os_Create_def issue_def Let_def split: option.splits node.splits)

lemma append_bytes_only_at: "only_at t w (append_bytes E w t bs)"
  by (simp add: only_at_def append_bytes_def issue_def Let_def split: option.splits node.splits)

lemma io_Copy_only_at: "only_at t w (snd (io_Copy E w t s))"
  by (simp add: io_Copy_def Let_def only_at_refl append_bytes_only_at split: option.splits)

lemma os_Chmod_only_at: "only_at t w (os_Chmod E w t m)"
  by (simp add: only_at_def os_Chmod_def issue_def Let_def split: option.splits)

lemma os_Chtimes_only_at: "only_at t w (os_Chtimes E w t m)"
  by (simp add: only_at_def os_Chtimes_def issue_def Let_def split: option.splits)

lemma doCopy_only_at: "only_at target w (snd (doCopy E w source target))"
proof (cases "os_Stat E w source")
  case None
  then show ?thesis by (simp add: doCopy_def only_at_refl)
next
  case (Some fi)
  show ?thesis
  proof (cases "os_Open E w source")
    case False
    with Some show ?thesis by (simp add: doCopy_def only_at_refl)
  next
    case True
    obtain ok1 w1 where c: "os_Create E w target = (ok1, w1)" by (cases "os_Create E w target")
    then have a1: "only_at target w w1" using os_Create_only_at [of target w E] by simp
    obtain ok2 w2 where d: "io_Copy E w1 target source = (ok2, w2)"
      by (cases "io_Copy E w1 target source")
    then have "only_at target w1 w2" using io_Copy_only_at [of target w1 E source] by simp
    with a1 have a2: "only_at target w w2" by (rule only_at_trans)
    have a3: "only_at target w (os_Chmod E w2 target (fi_Mode fi))"
      using a2 os_Chmod_only_at by (rule only_at_trans)
    have a4: "only_at target w
                (os_Chtimes E (os_Chmod E w2 target (fi_Mode fi)) target (fi_ModTime fi))"
      using a3 os_Chtimes_only_at by (rule only_at_trans)
    show ?thesis
      using Some True c d a1 a2 a4 by (cases ok1; cases ok2) (simp_all add: doCopy_def Let_def)
  qed
qed

lemma stat_none: "os_Stat E w c = None \<longleftrightarrow> unreachable E c \<or> files w c = None"
  by (simp add: os_Stat_def)

lemma not_exist_iff:
  "IsFileExist E w c = FileExistStatus_NotExist \<longleftrightarrow> unreachable E c \<or> files w c = None"
  by (auto simp add: IsFileExist_def os_Stat_def split: option.splits)

lemma doCopyOrMove_stdout:
  "stdout (snd (doCopyOrMove E w source c moveMode))
     = stdout w @ [if moveMode then Moved source c else Copied source c]"
  using doCopy_only_at [of c w E source]
  by (simp add: doCopyOrMove_def Let_def Printf_def only_at_def os_Rename_def issue_def
      split: option.splits)

lemma CopyFileInternal_cases:
  assumes "CopyFileInternal E w source target moveMode fh = Some (r, w')"
  shows "(\<exists>p. r = Inl p \<and> w' = w \<and> os_Stat E w source = None)
    \<or> (r = Inr None \<and> IsFileExist E w target = FileExistStatus_NotExist
         \<and> w' = snd (doCopyOrMove E w source target moveMode))
    \<or> (r = Inr None \<and> (\<exists>idx. IsFileExist E w (renameFile target idx) = FileExistStatus_NotExist
         \<and> w' = snd (doCopyOrMove E w source (renameFile target idx) moveMode)))
    \<or> (r = Inr None \<and> skipped_as_duplicate E w source target moveMode fh w')"
proof (cases "IsFileExist E w target = FileExistStatus_NotExist")
  case True
  with assms have "r = Inr None" "w' = snd (doCopyOrMove E w source target moveMode)"
    by (simp_all add: CopyFileInternal_def)
  with True show ?thesis by blast
next
  case ex: False
  with assms obtain y where y: "probing E w source target fh target 1 = Some y"
    by (auto simp add: CopyFileInternal_def split: option.splits)
  note post = probing_result [OF y, unfolded probing_post_def]
  show ?thesis
  proof (cases y)
    case (Inl p)
    have "CopyFileInternal E w source target moveMode fh = Some (Inl p, w)"
      using ex y Inl by (simp add: CopyFileInternal_def)
    with assms have "r = Inl p" "w' = w" by simp_all
    moreover from post Inl have "os_Stat E w source = None" by simp
    ultimately show ?thesis by blast
  next
    case (Inr c)
    with post have s: "settles E w source fh c" and o: "c = target \<or> (\<exists>idx. c = renameFile target idx)"
      by simp_all
    show ?thesis
    proof (cases "IsFileExist E w c = FileExistStatus_NotExist")
      case True
      with ex o obtain idx where i: "c = renameFile target idx" by blast
      have "CopyFileInternal E w source target moveMode fh
              = Some (Inr None, snd (doCopyOrMove E w source c moveMode))"
        using ex y Inr True by (simp add: CopyFileInternal_def)
      with assms have "r = Inr None" "w' = snd (doCopyOrMove E w source c moveMode)" by simp_all
      with True i show ?thesis by blast
    next
      case False
      with s have h: "hasSameContent E w source c fh = Inr True" by (simp add: settles_def)
      have "CopyFileInternal E w source target moveMode fh
              = Some (Inr None, Printf (Skipped source c)
                         (if moveMode then snd (os_Remove E w source) else w))"
        using ex y Inr False by (simp add: CopyFileInternal_def Let_def)
      with assms have "r = Inr None"
        "w' = Printf (Skipped source c) (if moveMode then snd (os_Remove E w source) else w)"
        by simp_all
      with False h o have "r = Inr None \<and> skipped_as_duplicate E w source target moveMode fh w'"
        unfolding skipped_as_duplicate_def by blast
      then show ?thesis by blast
    qed
  qed
qed

lemma transfer_line_neq:
  "(if m then Moved s t else Copied s t) = (if m then Moved s t' else Copied s t') \<Longrightarrow> t = t'"
  by (cases m) simp_all

lemma original_not_renamed:
  "transferred_to_original E w source target moveMode w' \<Longrightarrow>
   \<not> transferred_to_renamed E w source target moveMode w'"
proof
  assume a: "transferred_to_original E w source target moveMode w'"
    and "transferred_to_renamed E w source target moveMode w'"
  then obtain idx where
    "snd (doCopyOrMove E w source target moveMode)
       = snd (doCopyOrMove E w source (renameFile target idx) moveMode)"
    by (auto simp add: transferred_to_original_def transferred_to_renamed_def)
  then have "stdout (snd (doCopyOrMove E w source target moveMode))
       = stdout (snd (doCopyOrMove E w source (renameFile target idx) moveMode))"
    by (simp only:)
  then have "target = renameFile target idx"
    by (simp add: doCopyOrMove_stdout transfer_line_neq)
  then show False using renameFile_neq [of target idx] by simp
qed

lemma os_Remove_stdout: "stdout (snd (os_Remove E w p)) = stdout w"
  by (simp add: os_Remove_def issue_def Let_def)

lemma skipped_stdout:
  "skipped_as_duplicate E w source target moveMode fh w' \<Longrightarrow>
   \<exists>c. stdout w' = stdout w @ [Skipped source c]"
  by (auto simp add: skipped_as_duplicate_def Printf_def os_Remove_stdout)

lemma skipped_not_transferred:
  assumes "skipped_as_duplicate E w source target moveMode fh w'"
  shows "w' \<noteq> snd (doCopyOrMove E w source c moveMode)"
proof
  assume "w' = snd (doCopyOrMove E w source c moveMode)"
  then have "stdout w' = stdout w @ [if moveMode then Moved source c else Copied source c]"
    by (simp add: doCopyOrMove_stdout)
  with skipped_stdout [OF assms] show False by (cases moveMode) auto
qed

lemma skipped_effect:
  assumes "skipped_as_duplicate E w source target moveMode fh w'"
  shows "issued w w' = (if moveMode then [SysRemove source] else [])
    \<and> files w' = (if moveMode \<and> \<not> remove_fails E source then (files w)(source := None)
                   else files w)"
proof -
  from assms obtain c where h: "hasSameContent E w source c fh = Inr True"
    and w': "w' = Printf (Skipped source c) (if moveMode then snd (os_Remove E w source) else w)"
    by (auto simp add: skipped_as_duplicate_def)
  from h have "os_Stat E w source \<noteq> None"
    by (auto simp add: hasSameContent_def split: option.splits)
  then have "\<not> unreachable E source" "files w source \<noteq> None"
    by (auto simp add: os_Stat_def split: if_splits)
  with w' show ?thesis
    by (auto simp add: issued_def Printf_def os_Remove_def issue_def Let_def)
qed

lemma CopyFileInternal_returns:
  assumes "finite (dom (files w))" and "card (dom (files w)) < 2 ^ 63 - 1"
    and "os_Stat E w source \<noteq> None"
  shows "\<exists>w'. CopyFileInternal E w source target moveMode fh = Some (Inr None, w')"
proof (cases "IsFileExist E w target = FileExistStatus_NotExist")
  case True
  then show ?thesis by (simp add: CopyFileInternal_def)
next
  case False
  obtain y where y: "probing E w source target fh target 1 = Some y"
    using probing_total [OF assms(1,2)] by blast
  from probing_result [OF y] assms(3) obtain c where "y = Inr c"
    by (cases y) (auto simp add: probing_post_def)
  with False y show ?thesis by (simp add: CopyFileInternal_def Let_def)
qed

lemma CopyFileInternal_total:
  assumes "finite (dom (files w))" and "card (dom (files w)) < 2 ^ 63 - 1"
  shows "\<exists>r w'. CopyFileInternal E w source target moveMode fh = Some (r, w')"
proof (cases "IsFileExist E w target = FileExistStatus_NotExist")
  case True
  then show ?thesis by (simp add: CopyFileInternal_def)
next
  case False
  obtain y where y: "probing E w source target fh target 1 = Some y"
    using probing_total [OF assms(1,2)] by blast
  with False show ?thesis by (cases y) (simp_all add: CopyFileInternal_def Let_def)
qed

lemma rename_photo:
  "renameFile ''out/photo.jpg'' 1 = ''out/photo(1).jpg''"
  "renameFile ''out/photo.jpg'' 2 = ''out/photo(2).jpg''"
  by (simp_all add: renameFile_def Ext_def Itoa_def dec.simps digit_def)

lemma album_probes:
  "IsFileExist calm album ''out/photo.jpg'' = FileExistStatus_File"
  "IsFileExist calm album ''out/photo(1).jpg'' = FileExistStatus_File"
  "IsFileExist calm album ''out/photo(2).jpg'' = FileExistStatus_NotExist"
  by (simp_all add: IsFileExist_def os_Stat_def calm_def album_def)

lemma album_compare:
  "hasSameContent calm album ''in/photo.jpg'' ''out/photo.jpg'' False = Inr False"
  "hasSameContent calm album ''in/photo.jpg'' ''out/photo(1).jpg'' False = Inr False"
  by (simp_all add: hasSameContent_def getFullHash_def os_Stat_def os_Open_def read_bytes_def
      hex_def hexdigit_def toy_md5_def calm_def album_def)

lemma album_collides:
  "collides calm album ''in/photo.jpg'' False ''out/photo.jpg''"
  "collides calm album ''in/photo.jpg'' False ''out/photo(1).jpg''"
  "settles calm album ''in/photo.jpg'' False ''out/photo(2).jpg''"
  by (simp_all add: collides_def settles_def album_probes album_compare)

lemma album_finite: "finite (dom (files album))" "card (dom (files album)) < 2 ^ 63 - 1"
  by (simp_all add: album_def)

lemma album_run:
  "CopyFileInternal calm album ''in/photo.jpg'' ''out/photo.jpg'' False False
     = Some (Inr None, snd (doCopyOrMove calm album ''in/photo.jpg'' ''out/photo(2).jpg'' False))"
proof -
  have "probing calm album ''in/photo.jpg'' ''out/photo.jpg'' False ''out/photo.jpg'' 1
          = Some (Inr ''out/photo(2).jpg'')"
    by (simp add: probing_advance [OF album_collides(1)] rename_photo wrap64_def
        probing_advance [OF album_collides(2)] probing_settles [OF album_collides(3)])
  then show ?thesis by (simp add: CopyFileInternal_def album_probes)
qed



text \<open>
  The outcomes of a call that returns. In a file system with fewer than \<open>2^63 - 1\<close>
  entries, a call of \<open>CopyFileInternal\<close> on a source whose \<open>stat\<close> succeeds returns \<open>nil\<close>.
  Of every call that returns, exactly one of the three outcomes holds: transferred to the
  original target, transferred to a renamed target, skipped as a duplicate. In the
  duplicate outcome the calls issued are \<open>os.Remove(source)\<close> in move mode and none in copy
  mode, so no transfer is run, and the source is removed from the file map exactly in move
  mode (unless the removal is refused).
\<close>

lemma CopyFileInternal_outcomes:
  "(finite (dom (files w)) \<and> card (dom (files w)) < 2 ^ 63 - 1 \<and> os_Stat E w source \<noteq> None \<longrightarrow>
      (\<exists>w'. CopyFileInternal E w source target moveMode fullHashMode = Some (Inr None, w')))
   \<and> (CopyFileInternal E w source target moveMode fullHashMode = Some (Inr r, w') \<longrightarrow>
        (transferred_to_original E w source target moveMode w'
           \<and> \<not> transferred_to_renamed E w source target moveMode w'
           \<and> \<not> skipped_as_duplicate E w source target moveMode fullHashMode w'
         \<or> \<not> transferred_to_original E w source target moveMode w'
           \<and> transferred_to_renamed E w source target moveMode w'
           \<and> \<not> skipped_as_duplicate E w source target moveMode fullHashMode w'
         \<or> \<not> transferred_to_original E w source target moveMode w'
           \<and> \<not> transferred_to_renamed E w source target moveMode w'
           \<and> skipped_as_duplicate E w source target moveMode fullHashMode w')
        \<and> (skipped_as_duplicate E w source target moveMode fullHashMode w' \<longrightarrow>
             issued w w' = (if moveMode then [SysRemove source] else [])
             \<and> files w' = (if moveMode \<and> \<not> remove_fails E source
                            then (files w)(source := None) else files w)))"
proof (intro conjI impI)
  assume "finite (dom (files w)) \<and> card (dom (files w)) < 2 ^ 63 - 1 \<and> os_Stat E w source \<noteq> None"
  then show "\<exists>w'. CopyFileInternal E w source target moveMode fullHashMode = Some (Inr None, w')"
    by (simp add: CopyFileInternal_returns)
next
  assume run: "CopyFileInternal E w source target moveMode fullHashMode = Some (Inr r, w')"
  let ?A = "transferred_to_original E w source target moveMode w'"
  let ?B = "transferred_to_renamed E w source target moveMode w'"
  let ?C = "skipped_as_duplicate E w source target moveMode fullHashMode w'"
  from CopyFileInternal_cases [OF run] have some: "?A \<or> ?B \<or> ?C"
    unfolding transferred_to_original_def transferred_to_renamed_def by blast
  have ab: "?A \<longrightarrow> \<not> ?B" using original_not_renamed by blast
  have ca: "?C \<longrightarrow> \<not> ?A" using skipped_not_transferred
    unfolding transferred_to_original_def by blast
  have cb: "?C \<longrightarrow> \<not> ?B" using skipped_not_transferred
    unfolding transferred_to_renamed_def by blast
  from some ab ca cb
  show "?A \<and> \<not> ?B \<and> \<not> ?C \<or> \<not> ?A \<and> ?B \<and> \<not> ?C \<or> \<not> ?A \<and> \<not> ?B \<and> ?C" by blast
next
  assume "skipped_as_duplicate E w source target moveMode fullHashMode w'"
  from skipped_effect [OF this]
  show "issued w w' = (if moveMode then [SysRemove source] else [])" by (rule conjunct1)
next
  assume "skipped_as_duplicate E w source target moveMode fullHashMode w'"
  from skipped_effect [OF this]
  show "files w' = (if moveMode \<and> \<not> remove_fails E source
                            then (files w)(source := None) else files w)" by (rule conjunct2)
qed

lemma CopyFileInternal_outcomes_example:
  "finite (dom (files album)) \<and> card (dom (files album)) < 2 ^ 63 - 1
   \<and> os_Stat calm album ''in/photo.jpg'' \<noteq> None
   \<and> (\<exists>w'. CopyFileInternal calm album ''in/photo.jpg'' ''out/photo.jpg'' False False
              = Some (Inr None, w')
          \<and> transferred_to_renamed calm album ''in/photo.jpg'' ''out/photo.jpg'' False w'
          \<and> \<not> transferred_to_original calm album ''in/photo.jpg'' ''out/photo.jpg'' False w'
          \<and> \<not> skipped_as_duplicate calm album ''in/photo.jpg'' ''out/photo.jpg'' False False w')"
proof -
  let ?w = "snd (doCopyOrMove calm album ''in/photo.jpg'' ''out/photo(2).jpg'' False)"
  have s: "os_Stat calm album ''in/photo.jpg'' \<noteq> None"
    by (simp add: os_Stat_def calm_def album_def)
  have b: "transferred_to_renamed calm album ''in/photo.jpg'' ''out/photo.jpg'' False ?w"
    unfolding transferred_to_renamed_def using rename_photo(2) by metis
  from CopyFileInternal_outcomes [of album calm "''in/photo.jpg''" "''out/photo.jpg''" False False None ?w]
    album_run b s album_finite
  show ?thesis by blast
qed

text \<open>
  C6. A call in move mode on a source that does not exist and a target that exists does
  not end in one of the three outcomes: the first comparison of the loop panics on the
  \<open>nil\<close> \<open>FileInfo\<close> of the source, and the state the call leaves is neither that of a
  transfer to the target, nor that of a transfer to a renamed target, nor that of a skip.
\<close>

theorem CopyFileInternal_missing_source_panics:
  "CopyFileInternal calm album ''in/missing.jpg'' ''out/photo.jpg'' True False
     = Some (Inl NilDereference, album)
   \<and> \<not> transferred_to_original calm album ''in/missing.jpg'' ''out/photo.jpg'' True album
   \<and> \<not> transferred_to_renamed calm album ''in/missing.jpg'' ''out/photo.jpg'' True album
   \<and> \<not> skipped_as_duplicate calm album ''in/missing.jpg'' ''out/photo.jpg'' True False album"
proof -
  have s: "os_Stat calm album ''in/missing.jpg'' = None"
    by (simp add: os_Stat_def calm_def album_def)
  have "probing calm album ''in/missing.jpg'' ''out/photo.jpg'' False ''out/photo.jpg'' 1
          = Some (Inl NilDereference)"
    by (rule probing_panics) (simp_all add: album_probes hasSameContent_stat_failure s)
  then have run: "CopyFileInternal calm album ''in/missing.jpg'' ''out/photo.jpg'' True False
                    = Some (Inl NilDereference, album)"
    by (simp add: CopyFileInternal_def album_probes)
  have out: "stdout album = []" by (simp add: album_def)
  have t: "album \<noteq> snd (doCopyOrMove calm album ''in/missing.jpg'' c True)" for c
  proof
    assume "album = snd (doCopyOrMove calm album ''in/missing.jpg'' c True)"
    then have "stdout album = stdout (snd (doCopyOrMove calm album ''in/missing.jpg'' c True))"
      by (simp only:)
    then show False by (simp add: doCopyOrMove_stdout out)
  qed
  have k: "\<not> skipped_as_duplicate calm album ''in/missing.jpg'' ''out/photo.jpg'' True False album"
    using skipped_stdout [of calm album "''in/missing.jpg''" "''out/photo.jpg''" True False album]
    by (auto simp add: out)
  from run t k show ?thesis
    by (simp add: transferred_to_original_def transferred_to_renamed_def)
qed

text \<open>
  One call of \<open>CopyFileInternal\<close>, taken alone: when it ends, it has panicked with the
  state unchanged, or skipped the copy for a duplicate, or run \<open>doCopyOrMove\<close> once, on a
  candidate (the target or a renamed target) that \<open>IsFileExist\<close> reports as \<open>NotExist\<close> in
  the state the call was given. In a file system with fewer than \<open>2^63 - 1\<close> entries it
  ends.
\<close>

lemma CopyFileInternal_probes_first:
  "(finite (dom (files w)) \<and> card (dom (files w)) < 2 ^ 63 - 1 \<longrightarrow>
      (\<exists>r w'. CopyFileInternal E w source target moveMode fullHashMode = Some (r, w')))
   \<and> (CopyFileInternal E w source target moveMode fullHashMode = Some (r, w') \<longrightarrow>
        (\<exists>p. r = Inl p \<and> w' = w)
        \<or> skipped_as_duplicate E w source target moveMode fullHashMode w'
        \<or> (\<exists>c. (c = target \<or> (\<exists>idx. c = renameFile target idx))
              \<and> IsFileExist E w c = FileExistStatus_NotExist
              \<and> w' = snd (doCopyOrMove E w source c moveMode)))"
  using CopyFileInternal_total [of w E source target moveMode fullHashMode]
    CopyFileInternal_cases [of E w source target moveMode fullHashMode r w']
  by blast

text \<open>
  C1. Nothing orders the probes of one worker and the transfer of another. On \<open>race\<close>, the
  worker of \<open>in/photo.jpg\<close> finds the target \<open>out/photo.jpg\<close> taken by other content, leaves
  its loop with the candidate \<open>out/photo(1).jpg\<close> and probes it as \<open>NotExist\<close>. The worker
  of \<open>in/photo(1).jpg\<close>, whose target is that same path and is free, then runs its whole
  call and moves its file there. The first worker now runs the transfer it had decided
  on: its rename replaces the file that has just arrived, and the content of
  \<open>photo(1).jpg\<close> is at no path any more. The transfer ran on a path probed as \<open>NotExist\<close>,
  and overwrote an existing file.
\<close>

theorem two_workers_overwrite:
  "IsFileExist calm race ''out/photo.jpg'' = FileExistStatus_File
   \<and> probing calm race ''in/photo.jpg'' ''out/photo.jpg'' False ''out/photo.jpg'' 1
       = Some (Inr ''out/photo(1).jpg'')
   \<and> IsFileExist calm race ''out/photo(1).jpg'' = FileExistStatus_NotExist
   \<and> CopyFileInternal calm race ''in/photo(1).jpg'' ''out/photo(1).jpg'' True False
       = Some (Inr None, race_moved)
   \<and> files race_moved ''out/photo(1).jpg'' = Some (File [4, 5, 6] 420 6)
   \<and> files (snd (doCopyOrMove calm race_moved ''in/photo.jpg'' ''out/photo(1).jpg'' True))
        ''out/photo(1).jpg'' = Some (File [1, 2, 3] 420 7)
   \<and> files (snd (doCopyOrMove calm race_moved ''in/photo.jpg'' ''out/photo(1).jpg'' True))
        ''in/photo(1).jpg'' = None
   \<and> files (snd (doCopyOrMove calm race_moved ''in/photo.jpg'' ''out/photo(1).jpg'' True))
        ''in/photo.jpg'' = None
   \<and> files (snd (doCopyOrMove calm race_moved ''in/photo.jpg'' ''out/photo(1).jpg'' True))
        ''out/photo.jpg'' = Some (File [9, 9, 9] 420 8)"
proof -
  have taken: "IsFileExist calm race ''out/photo.jpg'' = FileExistStatus_File"
    and free: "IsFileExist calm race ''out/photo(1).jpg'' = FileExistStatus_NotExist"
    by (simp_all add: IsFileExist_def os_Stat_def calm_def race_def)
  have differs: "hasSameContent calm race ''in/photo.jpg'' ''out/photo.jpg'' False = Inr False"
    by (simp add: hasSameContent_def getFullHash_def os_Stat_def os_Open_def read_bytes_def
        hex_def hexdigit_def toy_md5_def calm_def race_def)
  have c: "collides calm race ''in/photo.jpg'' False ''out/photo.jpg''"
    by (simp add: collides_def taken differs)
  have s: "settles calm race ''in/photo.jpg'' False ''out/photo(1).jpg''"
    by (simp add: settles_def free)
  have loop: "probing calm race ''in/photo.jpg'' ''out/photo.jpg'' False ''out/photo.jpg'' 1
                = Some (Inr ''out/photo(1).jpg'')"
    by (simp add: probing_advance [OF c] rename_photo probing_settles [OF s])
  have other: "CopyFileInternal calm race ''in/photo(1).jpg'' ''out/photo(1).jpg'' True False
                 = Some (Inr None, race_moved)"
    by (simp add: CopyFileInternal_def free race_moved_def)
  have moved: "files race_moved
      = (files race)(''in/photo(1).jpg'' := None, ''out/photo(1).jpg'' \<mapsto> File [4, 5, 6] 420 6)"
    by (simp add: race_moved_def doCopyOrMove_def os_Rename_def is_dir_def issue_def Printf_def
        calm_def race_def Let_def)
  have late: "files (snd (doCopyOrMove calm race_moved ''in/photo.jpg'' ''out/photo(1).jpg'' True))
      = (files race_moved)(''in/photo.jpg'' := None, ''out/photo(1).jpg'' \<mapsto> File [1, 2, 3] 420 7)"
    by (simp add: doCopyOrMove_def os_Rename_def is_dir_def issue_def Printf_def calm_def
        moved race_def Let_def)
  show ?thesis
    by (simp add: taken free loop other late moved) (simp add: race_def)
qed

end
